theory Spec2Isabelle
  imports Main "HOL-Library.Word"
begin

section \<open>Reports\<close>

text \<open>
  Diagnostics go to the reporter through \<^verbatim>\<open>uvm_warning(id, msg)\<close> and its siblings. The
  model records the severity and the id of each report a call emits.
\<close>

datatype report = Warning string | Error string

section \<open>uvm_queue (base/uvm_queue.h)\<close>

text \<open>
  The class keeps its elements in a \<^verbatim>\<open>std::vector<T> queue\<close>, modelled as a list.

  \<^verbatim>\<open>int uvm_queue<T>::size() const { return queue.size(); }\<close>: the \<^verbatim>\<open>size_t\<close> element
  count is narrowed to a 32-bit \<^verbatim>\<open>int\<close>.
\<close>

definition size_q :: "'a list \<Rightarrow> int" where
  "size_q q = sint (word_of_nat (length q) :: 32 word)"

text \<open>\<^verbatim>\<open>queue.erase(queue.begin() + index)\<close>\<close>

definition erase :: "'a list \<Rightarrow> nat \<Rightarrow> 'a list" where
  "erase q i = take i q @ drop (Suc i) q"

text \<open>
  \<^verbatim>\<open>
  void uvm_queue<T>::remove(int index) {
      if (index >= size() || index < -1) {
          uvm_warning("QUEUEDEL", ...);
          return;
      }
      if (index == -1) queue.clear();
      else queue.erase(queue.begin() + index);
  }
  \<close>
  The result is the new contents and the reports emitted. The declaration gives the
  parameter its default: \<^verbatim>\<open>virtual void remove(int index = -1)\<close>.
\<close>

definition remove :: "int \<Rightarrow> 'a list \<Rightarrow> 'a list \<times> report list" where
  "remove index q =
     (if index \<ge> size_q q \<or> index < - 1 then (q, [Warning ''QUEUEDEL''])
      else if index = - 1 then ([], [])
      else (erase q (nat index), []))"

definition remove_default :: "'a list \<Rightarrow> 'a list \<times> report list" where
  "remove_default q = remove (- 1) q"

section \<open>mailbox (base/uvm_globals.h)\<close>

text \<open>
  \<^verbatim>\<open>std::queue<T> queue; int bound; bool running;\<close> The mutex and the condition variable
  make every method one atomic step on this state; the model is that step.
\<close>

record 'a mailbox =
  mb_queue :: "'a list"
  mb_bound :: "32 word"
  mb_running :: bool

text \<open>\<^verbatim>\<open>mailbox(int bound = 0) : bound(bound), running(true) {}\<close>\<close>

definition mailbox_new :: "32 word \<Rightarrow> 'a mailbox" where
  "mailbox_new b = \<lparr>mb_queue = [], mb_bound = b, mb_running = True\<rparr>"

text \<open>\<^verbatim>\<open>~mailbox() { running = false; }\<close>\<close>

definition mailbox_destroy :: "'a mailbox \<Rightarrow> 'a mailbox" where
  "mailbox_destroy mb = mb\<lparr>mb_running := False\<rparr>"

text \<open>
  A call of \<^verbatim>\<open>cond.wait(lock, pred)\<close> returns at once when \<^verbatim>\<open>pred()\<close> holds and keeps
  the caller waiting otherwise, the state untouched: \<open>Blocked\<close>.
\<close>

datatype 'a outcome = Blocked | Returned 'a

text \<open>
  \<^verbatim>\<open>queue.size() < bound || bound == 0\<close>: the left operand is a 64-bit \<^verbatim>\<open>size_t\<close>, so
  the \<^verbatim>\<open>int\<close> bound is sign-extended and read unsigned.
\<close>

definition has_room :: "'a mailbox \<Rightarrow> bool" where
  "has_room mb \<longleftrightarrow>
     length (mb_queue mb) < unat (scast (mb_bound mb) :: 64 word) \<or> mb_bound mb = 0"

text \<open>\<^verbatim>\<open>!queue.empty() || !running\<close>\<close>

definition can_take :: "'a mailbox \<Rightarrow> bool" where
  "can_take mb \<longleftrightarrow> mb_queue mb \<noteq> [] \<or> \<not> mb_running mb"

text \<open>\<^verbatim>\<open>queue.push(data)\<close> and \<^verbatim>\<open>queue.pop()\<close>\<close>

definition push :: "'a \<Rightarrow> 'a mailbox \<Rightarrow> 'a mailbox" where
  "push x mb = mb\<lparr>mb_queue := mb_queue mb @ [x]\<rparr>"

definition pop :: "'a mailbox \<Rightarrow> 'a mailbox" where
  "pop mb = mb\<lparr>mb_queue := tl (mb_queue mb)\<rparr>"

text \<open>
  \<^verbatim>\<open>
  void put(const T& data) {
      cond.wait(lock, [this]() { return queue.size() < bound || bound == 0; });
      queue.push(data); cond.notify_all();
  }
  bool try_put(const T& data) {
      if (queue.size() < bound || bound == 0) { queue.push(data); ...; return true; }
      else return false;
  }
  \<close>
\<close>

definition put :: "'a \<Rightarrow> 'a mailbox \<Rightarrow> 'a mailbox outcome" where
  "put x mb = (if has_room mb then Returned (push x mb) else Blocked)"

definition try_put :: "'a \<Rightarrow> 'a mailbox \<Rightarrow> bool \<times> 'a mailbox" where
  "try_put x mb = (if has_room mb then (True, push x mb) else (False, mb))"

text \<open>
  The output parameter \<^verbatim>\<open>T& data\<close> is the caller's variable: its value goes in and
  its value after the call comes out, next to the mailbox.
  \<^verbatim>\<open>
  void get(T& data) {
      cond.wait(lock, [this]() { return !queue.empty() || !running; });
      if (!running && queue.empty()) return;
      data = queue.front(); queue.pop(); cond.notify_all();
  }
  bool try_get(T& data) {
      if (!queue.empty()) { data = queue.front(); queue.pop(); ...; return true; }
      else return false;
  }
  void peek(T& data) {
      cond.wait(lock, [this]() { return !queue.empty() || !running; });
      if (!running && queue.empty()) return;
      data = queue.front();
  }
  \<close>
\<close>

definition get :: "'a \<Rightarrow> 'a mailbox \<Rightarrow> ('a \<times> 'a mailbox) outcome" where
  "get data mb =
     (if \<not> can_take mb then Blocked
      else if \<not> mb_running mb \<and> mb_queue mb = [] then Returned (data, mb)
      else Returned (hd (mb_queue mb), pop mb))"

definition try_get :: "'a \<Rightarrow> 'a mailbox \<Rightarrow> bool \<times> 'a \<times> 'a mailbox" where
  "try_get data mb =
     (if mb_queue mb \<noteq> [] then (True, hd (mb_queue mb), pop mb) else (False, data, mb))"

definition peek :: "'a \<Rightarrow> 'a mailbox \<Rightarrow> ('a \<times> 'a mailbox) outcome" where
  "peek data mb =
     (if \<not> can_take mb then Blocked
      else if \<not> mb_running mb \<and> mb_queue mb = [] then Returned (data, mb)
      else Returned (hd (mb_queue mb), mb))"

section \<open>Objection tracker (base/uvm_objection.h)\<close>

text \<open>
  The header declares the class: the maps \<^verbatim>\<open>m_source_count\<close> and \<^verbatim>\<open>m_total_count\<close> from
  objects to \<^verbatim>\<open>int\<close>, \<^verbatim>\<open>m_draining\<close>, and the methods
  \<^verbatim>\<open>raise_objection(obj, description, count = 1)\<close>,
  \<^verbatim>\<open>drop_objection(obj, description, count = 1)\<close>, \<^verbatim>\<open>m_raise\<close>, \<^verbatim>\<open>m_drop\<close>,
  \<^verbatim>\<open>get_objection_count\<close>, \<^verbatim>\<open>get_objection_total\<close>, \<^verbatim>\<open>raised\<close> and \<^verbatim>\<open>dropped\<close>. Their bodies
  are not part of the sources, so what they do is taken from the specification's
  section 4.4.

  An object is identified by its place in the hierarchy: its own name followed by the
  names of its ancestors. The empty path is the root, the implicit top level that a
  null \<^verbatim>\<open>obj\<close> stands for.
\<close>

type_synonym obj = "string list"

text \<open>
  Modelled from the spec: the chain "object and every hierarchical ancestor up to the
  root" that a raise or a drop walks; the body of \<^verbatim>\<open>m_get_parent\<close> is missing.
\<close>

fun hierarchy :: "obj \<Rightarrow> obj list" where
  "hierarchy [] = [[]]"
| "hierarchy (x # p) = (x # p) # hierarchy p"

text \<open>
  The notifications \<^verbatim>\<open>raised(obj, source_obj, description, count)\<close> and
  \<^verbatim>\<open>dropped(obj, source_obj, description, count)\<close>, in the order they are invoked.
\<close>

datatype notification =
    Raised obj obj string int
  | Dropped obj obj string int

text \<open>
  Modelled from the spec: the tracker's state, "per source object \<open>sourceCount: int\<close>,
  and per total (object + all ancestors) \<open>totalCount: int\<close>, \<open>draining: bool\<close>", with the
  notifications invoked and the errors reported so far. The drain timer and the
  \<open>all_dropped\<close> notification it ends in are outside this model.
\<close>

record uvm_objection =
  m_source_count :: "obj \<rightharpoonup> int"
  m_total_count :: "obj \<rightharpoonup> int"
  m_draining :: bool
  notified :: "notification list"
  reported :: "report list"

text \<open>Modelled from the spec: a fresh tracker, on which nothing has been raised.\<close>

definition uvm_objection_new :: uvm_objection where
  "uvm_objection_new =
     \<lparr>m_source_count = Map.empty, m_total_count = Map.empty, m_draining = False,
      notified = [], reported = []\<rparr>"

text \<open>
  Modelled from the spec: reading a count; an object the map does not hold has count
  0. The bodies of \<^verbatim>\<open>get_objection_count\<close> and \<^verbatim>\<open>get_objection_total\<close> are missing.
\<close>

definition count_in :: "(obj \<rightharpoonup> int) \<Rightarrow> obj \<Rightarrow> int" where
  "count_in m ob = (case m ob of None \<Rightarrow> 0 | Some c \<Rightarrow> c)"

definition get_objection_count :: "uvm_objection \<Rightarrow> obj \<Rightarrow> int" where
  "get_objection_count tr ob = count_in (m_source_count tr) ob"

definition get_objection_total :: "uvm_objection \<Rightarrow> obj \<Rightarrow> int" where
  "get_objection_total tr ob = count_in (m_total_count tr) ob"

text \<open>
  Modelled from the spec: "for \<open>object\<close> and every hierarchical ancestor up to the root,
  increments \<open>totalCount\<close> by \<open>count\<close> and invokes a \<open>raised\<close> notification". The body of
  \<^verbatim>\<open>m_raise\<close> is missing.
\<close>

fun m_raise :: "obj \<Rightarrow> obj \<Rightarrow> string \<Rightarrow> int \<Rightarrow> uvm_objection \<Rightarrow> uvm_objection" where
  "m_raise [] source_obj description count tr =
     tr\<lparr>m_total_count := (m_total_count tr)([] \<mapsto> get_objection_total tr [] + count),
        notified := notified tr @ [Raised [] source_obj description count]\<rparr>"
| "m_raise (x # p) source_obj description count tr =
     m_raise p source_obj description count
       (tr\<lparr>m_total_count := (m_total_count tr)(x # p \<mapsto> get_objection_total tr (x # p) + count),
           notified := notified tr @ [Raised (x # p) source_obj description count]\<rparr>)"

text \<open>
  Modelled from the spec: "propagates the decrement to ancestors' \<open>totalCount\<close>, invoking
  a \<open>dropped\<close> notification at each level", the object's own total included as in a
  raise. The body of \<^verbatim>\<open>m_drop\<close> is missing.
\<close>

fun m_drop :: "obj \<Rightarrow> obj \<Rightarrow> string \<Rightarrow> int \<Rightarrow> uvm_objection \<Rightarrow> uvm_objection" where
  "m_drop [] source_obj description count tr =
     tr\<lparr>m_total_count := (m_total_count tr)([] \<mapsto> get_objection_total tr [] - count),
        notified := notified tr @ [Dropped [] source_obj description count]\<rparr>"
| "m_drop (x # p) source_obj description count tr =
     m_drop p source_obj description count
       (tr\<lparr>m_total_count := (m_total_count tr)(x # p \<mapsto> get_objection_total tr (x # p) - count),
           notified := notified tr @ [Dropped (x # p) source_obj description count]\<rparr>)"

text \<open>
  Modelled from the spec: "\<open>raise(object, description, count=1)\<close>: increments
  \<open>sourceCount[object]\<close> by \<open>count\<close>; for \<open>object\<close> and every hierarchical ancestor up to
  the root, increments \<open>totalCount\<close> by \<open>count\<close> and invokes a \<open>raised\<close> notification. If
  the tracker transitions from zero to positive total, any pending drain timer is
  cancelled." The body of \<^verbatim>\<open>raise_objection\<close> is missing.
\<close>

definition raise_objection :: "obj \<Rightarrow> string \<Rightarrow> int \<Rightarrow> uvm_objection \<Rightarrow> uvm_objection" where
  "raise_objection ob description count tr =
     (let was = get_objection_total tr [];
          tr1 = tr\<lparr>m_source_count :=
                   (m_source_count tr)(ob \<mapsto> get_objection_count tr ob + count)\<rparr>;
          tr2 = m_raise ob ob description count tr1
      in if was = 0 \<and> 0 < get_objection_total tr2 [] then tr2\<lparr>m_draining := False\<rparr> else tr2)"

text \<open>
  Modelled from the spec: "\<open>drop(object, description, count=1)\<close>: decrements
  \<open>sourceCount[object]\<close>, clamped at zero with an error report if the drop would go
  negative (a drop without a matching prior raise is a user error, not a crash).
  Propagates the decrement to ancestors' \<open>totalCount\<close>, invoking a \<open>dropped\<close> notification
  at each level. When the root's \<open>totalCount\<close> reaches zero, the tracker enters
  \<open>draining\<close>." The decrement propagated is the one the source count took, so that "an
  unbalanced excess of drops is reported but never produces a negative or inconsistent
  count". The body of \<^verbatim>\<open>drop_objection\<close> is missing.
\<close>

definition drop_objection :: "obj \<Rightarrow> string \<Rightarrow> int \<Rightarrow> uvm_objection \<Rightarrow> uvm_objection" where
  "drop_objection ob description count tr =
     (let was = get_objection_total tr [];
          held = get_objection_count tr ob;
          left = (if held - count < 0 then 0 else held - count);
          tr1 = tr\<lparr>m_source_count := (m_source_count tr)(ob \<mapsto> left),
                   reported := reported tr @
                     (if held - count < 0 then [Error ''objection dropped below zero''] else [])\<rparr>;
          tr2 = m_drop ob ob description (held - left) tr1
      in if 0 < was \<and> get_objection_total tr2 [] = 0 then tr2\<lparr>m_draining := True\<rparr> else tr2)"

text \<open>The decrement a drop of \<open>n\<close> on \<open>ob\<close> applies: \<open>n\<close>, or what is left when that is less.\<close>

definition dropped_amount :: "uvm_objection \<Rightarrow> obj \<Rightarrow> int \<Rightarrow> int" where
  "dropped_amount tr ob n =
     (if get_objection_count tr ob - n < 0 then get_objection_count tr ob else n)"

text \<open>A history of calls on one tracker, performed in order.\<close>

datatype call = Raise obj string int | Drop obj string int


fun perform :: "call \<Rightarrow> uvm_objection \<Rightarrow> uvm_objection" where
  "perform (Raise ob d n) tr = raise_objection ob d n tr"
| "perform (Drop ob d n) tr = drop_objection ob d n tr"

fun perform_all :: "call list \<Rightarrow> uvm_objection \<Rightarrow> uvm_objection" where
  "perform_all [] tr = tr"
| "perform_all (c # cs) tr = perform_all cs (perform c tr)"






section \<open>Properties of uvm_queue\<close>

lemma size_q_small:
  assumes "length q < 2 ^ 31"
  shows "size_q q = int (length q)"
proof -
  have "sint (word_of_int (int (length q)) :: 32 word) = signed_take_bit 31 (int (length q))"
    by (simp only: sint_sbintrunc' len_of_numeral_defs, simp)
  also have "\<dots> = int (length q)"
    using assms by (simp add: signed_take_bit_int_eq_self_iff)
  finally show ?thesis by (simp add: size_q_def)
qed

lemma erase_length: "i < length q \<Longrightarrow> length (erase q i) = length q - 1"
  by (simp add: erase_def)

lemma erase_before: "j < i \<Longrightarrow> i < length q \<Longrightarrow> erase q i ! j = q ! j"
  by (simp add: erase_def nth_append)

lemma erase_after:
  "i \<le> j \<Longrightarrow> Suc j < length q \<Longrightarrow> erase q i ! j = q ! Suc j"
  by (simp add: erase_def nth_append min_def)

lemma size_q_wrapped:
  assumes "length q = 2 ^ 31"
  shows "size_q q = - (2 ^ 31)"
proof -
  have "size_q q = sint (word_of_nat (2 ^ 31) :: 32 word)"
    by (simp only: size_q_def assms)
  also have "\<dots> = - (2 ^ 31)"
    by simp
  finally show ?thesis .
qed

lemma remove_wrapped:
  assumes "length q = 2 ^ 31"
  shows "remove_default q = (q, [Warning ''QUEUEDEL''])"
    and "remove 0 q = (q, [Warning ''QUEUEDEL''])"
  by (simp_all add: remove_default_def remove_def size_q_wrapped [OF assms])

text \<open>
  C10. On a queue of fewer than \<open>2^31\<close> elements, whose element count fits the
  \<^verbatim>\<open>int\<close> that \<^verbatim>\<open>size()\<close> returns:
  \<^verbatim>\<open>remove()\<close> with its default index \<open>-1\<close> erases every element without a report;
  \<^verbatim>\<open>remove(i)\<close> with \<open>0 \<le> i < size\<close> removes exactly element \<open>i\<close> (one element fewer,
  the elements before \<open>i\<close> in place, the later ones moved down by one) without a
  report; an index \<open>\<ge> size\<close> or \<open>< -1\<close> reports the warning QUEUEDEL and leaves the
  queue as it was.
\<close>

theorem remove_spec:
  assumes "length q < 2 ^ 31"
  shows "remove_default q = ([], []) \<and>
    (\<forall>i. 0 \<le> i \<and> i < int (length q) \<longrightarrow>
           remove i q = (take (nat i) q @ drop (Suc (nat i)) q, []) \<and>
           length (fst (remove i q)) = length q - 1 \<and>
           (\<forall>j < nat i. fst (remove i q) ! j = q ! j) \<and>
           (\<forall>j \<ge> nat i. Suc j < length q \<longrightarrow> fst (remove i q) ! j = q ! Suc j)) \<and>
    (\<forall>i. i \<ge> int (length q) \<or> i < - 1 \<longrightarrow> remove i q = (q, [Warning ''QUEUEDEL'']))"
proof -
  have sz: "size_q q = int (length q)" by (rule size_q_small [OF assms])
  have clear: "remove_default q = ([], [])"
    by (simp add: remove_default_def remove_def sz)
  have outside: "remove i q = (q, [Warning ''QUEUEDEL''])"
    if "i \<ge> int (length q) \<or> i < - 1" for i
    using that by (simp add: remove_def sz)
  have inside: "remove i q = (take (nat i) q @ drop (Suc (nat i)) q, []) \<and>
           length (fst (remove i q)) = length q - 1 \<and>
           (\<forall>j < nat i. fst (remove i q) ! j = q ! j) \<and>
           (\<forall>j \<ge> nat i. Suc j < length q \<longrightarrow> fst (remove i q) ! j = q ! Suc j)"
    if h: "0 \<le> i \<and> i < int (length q)" for i
  proof -
    from h have n: "nat i < length q" by linarith
    from h have r: "remove i q = (erase q (nat i), [])"
      by (simp add: remove_def sz)
    have "erase q (nat i) = take (nat i) q @ drop (Suc (nat i)) q"
      by (simp add: erase_def)
    then show ?thesis
      using n r erase_length [OF n] erase_before [of _ "nat i" q] erase_after [of "nat i" _ q]
      by simp
  qed
  from clear inside outside show ?thesis by blast
qed

theorem remove_spec_witness:
  "remove_default [10, 20, 30 :: nat] = ([], []) \<and>
   remove 1 [10, 20, 30 :: nat] = ([10, 30], []) \<and>
   remove 3 [10, 20, 30 :: nat] = ([10, 20, 30], [Warning ''QUEUEDEL'']) \<and>
   remove (- 2) [10, 20, 30 :: nat] = ([10, 20, 30], [Warning ''QUEUEDEL''])"
proof -
  have len: "length [10, 20, 30 :: nat] < 2 ^ 31" by simp
  show ?thesis
    using remove_spec [OF len] by simp
qed

text \<open>
  Without the bound on the element count the statement fails: on a queue of \<open>2^31\<close>
  elements \<^verbatim>\<open>size()\<close> is \<open>-2^31\<close>, so the range test \<^verbatim>\<open>index >= size()\<close> holds for every
  index from \<open>-1\<close> up; \<^verbatim>\<open>remove()\<close> and \<^verbatim>\<open>remove(0)\<close> report QUEUEDEL and erase nothing.
\<close>

theorem remove_spec_counterexample:
  "remove_default (replicate (2 ^ 31) (0 :: nat)) =
     (replicate (2 ^ 31) 0, [Warning ''QUEUEDEL'']) \<and>
   remove_default (replicate (2 ^ 31) (0 :: nat)) \<noteq> ([], []) \<and>
   remove 0 (replicate (2 ^ 31) (0 :: nat)) = (replicate (2 ^ 31) 0, [Warning ''QUEUEDEL''])"
proof -
  have len: "length (replicate (2 ^ 31) (0 :: nat)) = 2 ^ 31"
    by (rule length_replicate)
  have a: "remove_default (replicate (2 ^ 31) (0 :: nat)) =
     (replicate (2 ^ 31) 0, [Warning ''QUEUEDEL''])"
    by (rule remove_wrapped(1) [OF len])
  have b: "remove 0 (replicate (2 ^ 31) (0 :: nat)) = (replicate (2 ^ 31) 0, [Warning ''QUEUEDEL''])"
    by (rule remove_wrapped(2) [OF len])
  have c: "remove_default (replicate (2 ^ 31) (0 :: nat)) \<noteq> ([], [])"
    by (simp only: a prod.inject list.distinct simp_thms not_False_eq_True)
  from a b c show ?thesis by (intro conjI)
qed

section \<open>Properties of mailbox\<close>

lemma uint_scast_bound: "uint (scast (b :: 32 word) :: 64 word) = sint b mod 2 ^ 64"
  by (subst scast_eq) (simp only: uint_word_of_int len_of_numeral_defs, simp)

lemma sint_bound_lt: "sint (b :: 32 word) < 2 ^ 31"
  using sint_lt [of b] by simp

lemma sint_bound_ge: "- (2 ^ 31) \<le> sint (b :: 32 word)"
  using sint_ge [of b] by simp

lemma unat_scast_nonneg:
  assumes "0 \<le> sint (b :: 32 word)"
  shows "unat (scast b :: 64 word) = nat (sint b)"
proof -
  have "sint b mod 2 ^ 64 = sint b"
    using assms sint_bound_lt [of b] by (intro mod_pos_pos_trivial) auto
  then show ?thesis by (simp only: unat_eq_nat_uint uint_scast_bound)
qed

lemma unat_scast_neg:
  assumes "sint (b :: 32 word) < 0"
  shows "2 ^ 64 - 2 ^ 31 \<le> unat (scast b :: 64 word)"
proof -
  have "(sint b + 2 ^ 64) mod 2 ^ 64 = sint b + 2 ^ 64"
    using assms sint_bound_ge [of b] by (intro mod_pos_pos_trivial) auto
  then have "sint b mod 2 ^ 64 = sint b + 2 ^ 64"
    by (simp only: mod_add_self2)
  then have "unat (scast b :: 64 word) = nat (sint b + 2 ^ 64)"
    by (simp only: unat_eq_nat_uint uint_scast_bound)
  then show ?thesis using sint_bound_ge [of b] by simp
qed

lemma sint_zero_iff: "sint (b :: 32 word) = 0 \<longleftrightarrow> b = 0"
  by (rule signed_eq_0_iff)

text \<open>The room test of \<open>put\<close> and \<open>try_put\<close>, read on the signed value of the bound.\<close>

lemma has_room_iff:
  assumes "length (mb_queue mb) < 2 ^ 63"
  shows "has_room mb \<longleftrightarrow>
           sint (mb_bound mb) \<le> 0 \<or> int (length (mb_queue mb)) < sint (mb_bound mb)"
proof (cases "sint (mb_bound mb) < 0")
  case True
  have "length (mb_queue mb) < 2 ^ 64 - 2 ^ 31"
    using assms by simp
  with unat_scast_neg [OF True] have "length (mb_queue mb) < unat (scast (mb_bound mb) :: 64 word)"
    by linarith
  with True show ?thesis by (simp add: has_room_def)
next
  case False
  then have nn: "0 \<le> sint (mb_bound mb)" by simp
  have "length (mb_queue mb) < nat (sint (mb_bound mb)) \<longleftrightarrow>
          int (length (mb_queue mb)) < sint (mb_bound mb)"
    using nn by linarith
  moreover have "mb_bound mb = 0 \<longleftrightarrow> sint (mb_bound mb) \<le> 0"
    using nn sint_zero_iff [of "mb_bound mb"] by linarith
  ultimately show ?thesis
    unfolding has_room_def unat_scast_nonneg [OF nn] by blast
qed

text \<open>
  C8. On a mailbox of a size the container can hold: \<open>put\<close> is kept waiting exactly
  while the bound is positive and the queue holds at least that many items, and
  otherwise appends the item; \<open>get\<close> is kept waiting only while the queue is empty
  (and the mailbox alive); \<open>try_put\<close> and \<open>try_get\<close> always return: \<open>try_put\<close> returns
  true and appends the item exactly when the mailbox is unbounded (bound not positive)
  or holds fewer items than the bound, and false with the mailbox unchanged otherwise;
  \<open>try_get\<close> returns true with the front item, removed from the queue, exactly when
  the queue is not empty, and false with everything unchanged otherwise.
\<close>

theorem mailbox_blocking_spec:
  assumes "length (mb_queue mb) < 2 ^ 63"
  shows "(put x mb = Blocked \<longleftrightarrow>
            0 < sint (mb_bound mb) \<and> sint (mb_bound mb) \<le> int (length (mb_queue mb))) \<and>
         (put x mb \<noteq> Blocked \<longrightarrow> put x mb = Returned (mb\<lparr>mb_queue := mb_queue mb @ [x]\<rparr>)) \<and>
         (get d mb = Blocked \<longleftrightarrow> mb_queue mb = [] \<and> mb_running mb) \<and>
         (mb_queue mb \<noteq> [] \<longrightarrow>
            get d mb = Returned (hd (mb_queue mb), mb\<lparr>mb_queue := tl (mb_queue mb)\<rparr>)) \<and>
         try_put x mb =
           (if sint (mb_bound mb) \<le> 0 \<or> int (length (mb_queue mb)) < sint (mb_bound mb)
            then (True, mb\<lparr>mb_queue := mb_queue mb @ [x]\<rparr>) else (False, mb)) \<and>
         try_get d mb =
           (if mb_queue mb \<noteq> []
            then (True, hd (mb_queue mb), mb\<lparr>mb_queue := tl (mb_queue mb)\<rparr>)
            else (False, d, mb))"
proof -
  note room = has_room_iff [OF assms]
  have p1: "put x mb = Blocked \<longleftrightarrow>
            0 < sint (mb_bound mb) \<and> sint (mb_bound mb) \<le> int (length (mb_queue mb))"
    unfolding put_def using room by auto
  have p2: "put x mb \<noteq> Blocked \<longrightarrow> put x mb = Returned (mb\<lparr>mb_queue := mb_queue mb @ [x]\<rparr>)"
    by (simp add: put_def push_def)
  have g1: "get d mb = Blocked \<longleftrightarrow> mb_queue mb = [] \<and> mb_running mb"
    by (auto simp: get_def can_take_def)
  have g2: "mb_queue mb \<noteq> [] \<longrightarrow>
            get d mb = Returned (hd (mb_queue mb), mb\<lparr>mb_queue := tl (mb_queue mb)\<rparr>)"
    by (simp add: get_def can_take_def pop_def)
  have tp: "try_put x mb =
           (if sint (mb_bound mb) \<le> 0 \<or> int (length (mb_queue mb)) < sint (mb_bound mb)
            then (True, mb\<lparr>mb_queue := mb_queue mb @ [x]\<rparr>) else (False, mb))"
    unfolding try_put_def push_def using room by simp
  have tg: "try_get d mb =
           (if mb_queue mb \<noteq> []
            then (True, hd (mb_queue mb), mb\<lparr>mb_queue := tl (mb_queue mb)\<rparr>)
            else (False, d, mb))"
    by (simp add: try_get_def pop_def)
  from p1 p2 g1 g2 tp tg show ?thesis by blast
qed

theorem mailbox_blocking_spec_witness:
  "put (7 :: nat) \<lparr>mb_queue = [1, 2], mb_bound = 2, mb_running = True\<rparr> = Blocked \<and>
   put (7 :: nat) \<lparr>mb_queue = [1], mb_bound = 2, mb_running = True\<rparr>
     = Returned \<lparr>mb_queue = [1, 7], mb_bound = 2, mb_running = True\<rparr> \<and>
   get (0 :: nat) \<lparr>mb_queue = [], mb_bound = 2, mb_running = True\<rparr> = Blocked \<and>
   get (0 :: nat) \<lparr>mb_queue = [1, 2], mb_bound = 2, mb_running = True\<rparr>
     = Returned (1, \<lparr>mb_queue = [2], mb_bound = 2, mb_running = True\<rparr>) \<and>
   try_put (7 :: nat) \<lparr>mb_queue = [1, 2], mb_bound = 2, mb_running = True\<rparr>
     = (False, \<lparr>mb_queue = [1, 2], mb_bound = 2, mb_running = True\<rparr>) \<and>
   try_put (7 :: nat) \<lparr>mb_queue = [1, 2], mb_bound = 0, mb_running = True\<rparr>
     = (True, \<lparr>mb_queue = [1, 2, 7], mb_bound = 0, mb_running = True\<rparr>) \<and>
   try_get (0 :: nat) \<lparr>mb_queue = [1, 2], mb_bound = 2, mb_running = True\<rparr>
     = (True, 1, \<lparr>mb_queue = [2], mb_bound = 2, mb_running = True\<rparr>) \<and>
   try_get (0 :: nat) \<lparr>mb_queue = [], mb_bound = 2, mb_running = True\<rparr>
     = (False, 0, \<lparr>mb_queue = [], mb_bound = 2, mb_running = True\<rparr>)"
proof -
  have l0: "length (mb_queue \<lparr>mb_queue = [] :: nat list, mb_bound = 2, mb_running = True\<rparr>) < 2 ^ 63"
    by simp
  have l1: "length (mb_queue \<lparr>mb_queue = [1 :: nat], mb_bound = 2, mb_running = True\<rparr>) < 2 ^ 63"
    by simp
  have l2: "length (mb_queue \<lparr>mb_queue = [1, 2 :: nat], mb_bound = 2, mb_running = True\<rparr>) < 2 ^ 63"
    by simp
  have l3: "length (mb_queue \<lparr>mb_queue = [1, 2 :: nat], mb_bound = 0, mb_running = True\<rparr>) < 2 ^ 63"
    by simp
  show ?thesis
    using mailbox_blocking_spec [OF l0, of 7 0] mailbox_blocking_spec [OF l1, of 7 0]
      mailbox_blocking_spec [OF l2, of 7 0] mailbox_blocking_spec [OF l3, of 7 0]
    by simp
qed

text \<open>
  C9. Once the destructor has cleared \<open>running\<close> and the queue is empty, \<open>get\<close> and
  \<open>peek\<close> return at once with the caller's variable and the mailbox exactly as they
  were. What the caller gets back is the value its variable already had, which is also
  what a call that did deliver an item of that value gives: nothing tells the two
  apart.
\<close>

theorem get_peek_after_shutdown:
  assumes "\<not> mb_running mb" and "mb_queue mb = []"
  shows "get d mb = Returned (d, mb) \<and> peek d mb = Returned (d, mb) \<and>
         get d (mailbox_destroy mb) = Returned (d, mailbox_destroy mb) \<and>
         peek d (mailbox_destroy mb) = Returned (d, mailbox_destroy mb) \<and>
         (\<exists>mb' rest. mb_queue mb' \<noteq> [] \<and> get d' mb' = Returned (d, rest)) \<and>
         (\<exists>mb' rest. mb_queue mb' \<noteq> [] \<and> peek d' mb' = Returned (d, rest))"
proof -
  have a: "get d mb = Returned (d, mb)" "peek d mb = Returned (d, mb)"
    using assms by (simp_all add: get_def peek_def can_take_def)
  have b: "get d (mailbox_destroy mb) = Returned (d, mailbox_destroy mb)"
    "peek d (mailbox_destroy mb) = Returned (d, mailbox_destroy mb)"
    using assms by (simp_all add: get_def peek_def can_take_def mailbox_destroy_def)
  let ?full = "mb\<lparr>mb_queue := [d]\<rparr>"
  have c: "mb_queue ?full \<noteq> [] \<and> get d' ?full = Returned (d, pop ?full)"
    by (simp add: get_def can_take_def)
  have e: "mb_queue ?full \<noteq> [] \<and> peek d' ?full = Returned (d, ?full)"
    by (simp add: peek_def can_take_def)
  from a b c e show ?thesis by blast
qed

theorem get_peek_after_shutdown_witness:
  "get (5 :: nat) (mailbox_destroy (mailbox_new 0)) = Returned (5, mailbox_destroy (mailbox_new 0)) \<and>
   peek (5 :: nat) (mailbox_destroy (mailbox_new 0)) = Returned (5, mailbox_destroy (mailbox_new 0))"
proof -
  have r: "\<not> mb_running (mailbox_destroy (mailbox_new 0 :: nat mailbox))"
    by (simp add: mailbox_destroy_def mailbox_new_def)
  have q: "mb_queue (mailbox_destroy (mailbox_new 0 :: nat mailbox)) = []"
    by (simp add: mailbox_destroy_def mailbox_new_def)
  show ?thesis
    using get_peek_after_shutdown [OF r q, of 5] by simp
qed

section \<open>Properties of the objection tracker\<close>

lemma hierarchy_length: "a \<in> set (hierarchy ob) \<Longrightarrow> length a \<le> length ob"
  by (induction ob) auto


lemma m_raise_source [simp]: "m_source_count (m_raise ob s d n tr) = m_source_count tr"
  by (induction ob s d n tr rule: m_raise.induct) simp_all

lemma m_raise_reported [simp]: "reported (m_raise ob s d n tr) = reported tr"
  by (induction ob s d n tr rule: m_raise.induct) simp_all


lemma m_drop_source [simp]: "m_source_count (m_drop ob s d n tr) = m_source_count tr"
  by (induction ob s d n tr rule: m_drop.induct) simp_all

lemma m_drop_reported [simp]: "reported (m_drop ob s d n tr) = reported tr"
  by (induction ob s d n tr rule: m_drop.induct) simp_all

lemma m_drop_total:
  "get_objection_total (m_drop ob s d n tr) node =
     get_objection_total tr node - (if node \<in> set (hierarchy ob) then n else 0)"
proof (induction ob s d n tr rule: m_drop.induct)
  case (1 s d n tr)
  then show ?case by (simp add: get_objection_total_def count_in_def)
next
  case (2 x p s d n tr)
  have "x # p \<notin> set (hierarchy p)" using hierarchy_length [of "x # p" p] by auto
  with 2 show ?case by (auto simp add: get_objection_total_def count_in_def)
qed



lemma raise_counts:
  "get_objection_count (raise_objection ob d n tr) o' =
     get_objection_count tr o' + (if o' = ob then n else 0)"
  by (simp add: raise_objection_def Let_def get_objection_count_def count_in_def)





lemma drop_counts:
  "get_objection_count (drop_objection ob d n tr) o' =
     get_objection_count tr o' - (if o' = ob then dropped_amount tr ob n else 0)"
  by (simp add: drop_objection_def Let_def get_objection_count_def count_in_def dropped_amount_def)

lemma drop_total:
  "get_objection_total (drop_objection ob d n tr) node =
     get_objection_total tr node - (if node \<in> set (hierarchy ob) then dropped_amount tr ob n else 0)"
proof -
  let ?held = "get_objection_count tr ob"
  let ?left = "if ?held - n < 0 then 0 else ?held - n"
  let ?tr1 = "tr\<lparr>m_source_count := (m_source_count tr)(ob \<mapsto> ?left),
                 reported := reported tr @
                   (if ?held - n < 0 then [Error ''objection dropped below zero''] else [])\<rparr>"
  have t1: "get_objection_total ?tr1 node = get_objection_total tr node"
    by (simp add: get_objection_total_def)
  have amount: "?held - ?left = dropped_amount tr ob n"
    by (simp add: dropped_amount_def)
  have "get_objection_total (drop_objection ob d n tr) node
          = get_objection_total (m_drop ob ob d (?held - ?left) ?tr1) node"
    by (simp add: drop_objection_def Let_def get_objection_total_def)
  then show ?thesis by (simp only: m_drop_total t1 amount)
qed

lemma drop_reported:
  "reported (drop_objection ob d n tr) =
     reported tr @ (if get_objection_count tr ob - n < 0
                    then [Error ''objection dropped below zero''] else [])"
  by (simp add: drop_objection_def Let_def)




lemma new_count: "get_objection_count uvm_objection_new ob = 0"
  by (simp add: uvm_objection_new_def get_objection_count_def count_in_def)


lemma new_reported: "reported uvm_objection_new = []"
  by (simp add: uvm_objection_new_def)

lemma raise_reported: "reported (raise_objection ob d n tr) = reported tr"
  by (simp add: raise_objection_def Let_def)








text \<open>
  C2. A drop on an object whose source count is zero, with nothing raised to match it,
  reports an error and changes no count: the object's source count stays zero, every
  other source count and every total is as before. The call returns a tracker on which
  the next raise counts as usual. In particular, after one raise on an object followed
  by two drops, its source count is zero and exactly one error has been reported.
\<close>

theorem over_drop_is_clamped:
  assumes zero: "get_objection_count tr ob = 0" and pos: "0 < n"
  shows "get_objection_count (drop_objection ob d n tr) ob = 0 \<and>
         reported (drop_objection ob d n tr) =
           reported tr @ [Error ''objection dropped below zero''] \<and>
         (\<forall>o'. get_objection_count (drop_objection ob d n tr) o' = get_objection_count tr o') \<and>
         (\<forall>node. get_objection_total (drop_objection ob d n tr) node = get_objection_total tr node) \<and>
         (\<forall>k. get_objection_count (raise_objection ob d k (drop_objection ob d n tr)) ob = k) \<and>
         get_objection_count
           (perform_all [Raise ob d 1, Drop ob d 1, Drop ob d 1] uvm_objection_new) ob = 0 \<and>
         reported (perform_all [Raise ob d 1, Drop ob d 1, Drop ob d 1] uvm_objection_new) =
           [Error ''objection dropped below zero'']"
proof -
  have amount: "dropped_amount tr ob n = 0"
    using zero pos by (simp add: dropped_amount_def)
  have c: "get_objection_count (drop_objection ob d n tr) o' = get_objection_count tr o'" for o'
    by (simp add: drop_counts amount)
  have t: "get_objection_total (drop_objection ob d n tr) node = get_objection_total tr node" for node
    by (simp add: drop_total amount)
  have r: "reported (drop_objection ob d n tr) =
           reported tr @ [Error ''objection dropped below zero'']"
    using zero pos by (simp add: drop_reported)
  have again: "get_objection_count (raise_objection ob d k (drop_objection ob d n tr)) ob = k" for k
    by (simp add: raise_counts c zero)
  have s1: "get_objection_count
           (perform_all [Raise ob d 1, Drop ob d 1, Drop ob d 1] uvm_objection_new) ob = 0"
    by (simp add: raise_counts drop_counts dropped_amount_def new_count)
  have s2: "reported (perform_all [Raise ob d 1, Drop ob d 1, Drop ob d 1] uvm_objection_new) =
           [Error ''objection dropped below zero'']"
    by (simp add: drop_reported raise_counts drop_counts dropped_amount_def raise_reported
        new_count new_reported)
  from c [of ob] zero r c t again s1 s2 show ?thesis by simp
qed

theorem over_drop_is_clamped_witness:
  "get_objection_count uvm_objection_new [] = 0 \<and> (0 :: int) < 1 \<and>
   get_objection_count (drop_objection [] ''late'' 1 uvm_objection_new) [] = 0 \<and>
   reported (drop_objection [] ''late'' 1 uvm_objection_new) =
     [Error ''objection dropped below zero''] \<and>
   get_objection_count
     (perform_all [Raise [] ''late'' 1, Drop [] ''late'' 1, Drop [] ''late'' 1]
        uvm_objection_new) [] = 0 \<and>
   reported
     (perform_all [Raise [] ''late'' 1, Drop [] ''late'' 1, Drop [] ''late'' 1]
        uvm_objection_new) = [Error ''objection dropped below zero'']"
proof -
  have zero: "get_objection_count uvm_objection_new [] = 0"
    by (rule new_count)
  have pos: "(0 :: int) < 1" by simp
  show ?thesis
    using over_drop_is_clamped [OF zero pos, of "''late''"] zero
    by (simp add: new_reported)
qed

end
